theory Spec2Isabelle
  imports Main "HOL-Library.Multiset"
begin

section \<open>The secret resolver of types-publisher (src/lib/secrets.ts)\<close>

text \<open>
  The module exports the enum \<open>Secret\<close>, the list \<open>allSecrets\<close> and the asynchronous
  function \<open>getSecret\<close>. Strings are \<open>char list\<close>s, the creation time of a version is
  the millisecond count of its \<open>Date\<close>, a thrown value or a rejected promise is the
  left summand of the result, and the calls \<open>getSecret\<close> makes to the console and to
  the vault client are collected, in order, in a list of events.
\<close>

subsection \<open>The enum and its runtime object\<close>

datatype Secret =
    AZURE_STORAGE_ACCESS_KEY
  | GITHUB_ACCESS_TOKEN
  | GITHUB_SECRET
  | NPM_TOKEN

text \<open>The members in declaration order; a numeric enum numbers them from 0.\<close>

definition Secret_members :: "Secret list" where
  "Secret_members = [AZURE_STORAGE_ACCESS_KEY, GITHUB_ACCESS_TOKEN, GITHUB_SECRET, NPM_TOKEN]"

primrec Secret_value :: "Secret \<Rightarrow> nat" where
  "Secret_value AZURE_STORAGE_ACCESS_KEY = 0"
| "Secret_value GITHUB_ACCESS_TOKEN = 1"
| "Secret_value GITHUB_SECRET = 2"
| "Secret_value NPM_TOKEN = 3"

primrec Secret_key :: "Secret \<Rightarrow> string" where
  "Secret_key AZURE_STORAGE_ACCESS_KEY = ''AZURE_STORAGE_ACCESS_KEY''"
| "Secret_key GITHUB_ACCESS_TOKEN = ''GITHUB_ACCESS_TOKEN''"
| "Secret_key GITHUB_SECRET = ''GITHUB_SECRET''"
| "Secret_key NPM_TOKEN = ''NPM_TOKEN''"

datatype js_value = Number nat | String string

text \<open>\<open>String(n)\<close> for a non-negative integer: its decimal digits.\<close>

fun number_to_string :: "nat \<Rightarrow> string" where
  "number_to_string n =
     (if n < 10 then [char_of (48 + n)]
      else number_to_string (n div 10) @ [char_of (48 + n mod 10)])"

text \<open>
  The object the compiler emits for a numeric enum holds, for each member, the
  property name \<open>\<mapsto>\<close> number and the reverse property number \<open>\<mapsto>\<close> name. The
  association list below gives its own properties in the order \<open>Object.keys\<close> lists
  them: the integer keys ascending, then the string keys in creation order.
\<close>

definition Secret_object :: "(string \<times> js_value) list" where
  "Secret_object =
     map (\<lambda>m. (number_to_string (Secret_value m), String (Secret_key m))) Secret_members @
     map (\<lambda>m. (Secret_key m, Number (Secret_value m))) Secret_members"

definition Object_keys :: "(string \<times> js_value) list \<Rightarrow> string list" where
  "Object_keys obj = map fst obj"

text \<open>
  Modelled from the spec: \<open>mapDefined\<close> of \<open>../util/util\<close> is not among the sources.
  The resolver ``enumerates a fixed set of named secrets'' by ``reflecting over enum
  keys'': the helper applies the mapper to each element in order and keeps the
  results that are not \<open>undefined\<close> (\<open>None\<close>).
\<close>

fun mapDefined :: "'a list \<Rightarrow> ('a \<Rightarrow> 'b option) \<Rightarrow> 'b list" where
  "mapDefined [] mapper = []"
| "mapDefined (a # arr) mapper =
     (case mapper a of None \<Rightarrow> mapDefined arr mapper | Some res \<Rightarrow> res # mapDefined arr mapper)"

definition allSecrets :: "nat list" where
  "allSecrets =
     mapDefined (Object_keys Secret_object) (\<lambda>key.
       (case map_of Secret_object key of
          Some (Number v) \<Rightarrow> Some v
        | _ \<Rightarrow> None))"

subsection \<open>Deriving the vault's secret name\<close>

text \<open>
  \<open>toLowerCase\<close> on the bytes of a string: the letters A to Z (codes 65 to 90) move
  to a to z, every other byte is kept. The enum's names are ASCII.
\<close>

definition toLowerCase_char :: "char \<Rightarrow> char" where
  "toLowerCase_char c =
     (let n = (of_char c :: nat) in if 65 \<le> n \<and> n \<le> 90 then char_of (n + 32) else c)"

definition toLowerCase :: "string \<Rightarrow> string" where
  "toLowerCase s = map toLowerCase_char s"

text \<open>\<open>s.replace(/c/g, r)\<close> for a one-character pattern: every \<open>c\<close> becomes \<open>r\<close>.\<close>

definition replace_global :: "char \<Rightarrow> string \<Rightarrow> string \<Rightarrow> string" where
  "replace_global c r s = concat (map (\<lambda>x. if x = c then r else [x]) s)"

text \<open>
  \<open>Secret[secret]\<close> reads the reverse property of the enum object; \<open>azureSecretName\<close>
  is the constant of that name in \<open>getSecret\<close>, as a function of the member.
\<close>

definition Secret_name :: "Secret \<Rightarrow> string" where
  "Secret_name secret =
     (case map_of Secret_object (number_to_string (Secret_value secret)) of
        Some (String name) \<Rightarrow> name
      | _ \<Rightarrow> [])"

definition azureSecretName :: "Secret \<Rightarrow> string" where
  "azureSecretName secret = replace_global (CHR ''_'') ''-'' (toLowerCase (Secret_name secret))"

definition is_upper :: "char \<Rightarrow> bool" where
  "is_upper c = (65 \<le> (of_char c :: nat) \<and> (of_char c :: nat) \<le> 90)"

subsection \<open>Errors, events and the collaborators\<close>

datatype error =
    Error string \<comment> \<open>\<open>throw new Error(message)\<close>\<close>
  | TypeError string \<comment> \<open>the runtime's error for reading the named property of \<open>undefined\<close>\<close>
  | Raised string \<comment> \<open>an error value of a collaborator: a rejected promise of the vault
      client, or the error the identity provider calls back with\<close>

record SecretAttributes =
  created :: int

record SecretItem =
  id' :: string
  attributes :: SecretAttributes

record SecretBundle =
  value' :: string

record TokenResponse =
  tokenType :: string
  accessToken :: string

record Challenge =
  authorization :: string
  resource :: string

text \<open>The two methods of the vault client that the resolver awaits.\<close>

record KeyVaultClient =
  getSecretVersions :: "string \<Rightarrow> string \<Rightarrow> error + SecretItem list"
  getSecret' :: "string \<Rightarrow> string \<Rightarrow> string \<Rightarrow> error + SecretBundle"

text \<open>
  What the module takes from outside: the process environment, the vault URL of
  \<open>./settings\<close>, the identity provider (an \<open>AuthenticationContext\<close> for an authority,
  asked for a token for a resource, a client id and a client secret) and the
  constructor of the vault client, which receives the credential callback.
\<close>

record platform =
  process_env :: "string \<rightharpoonup> string"
  azureKeyvault :: string
  acquireTokenWithClientCredentials ::
    "string \<Rightarrow> string \<Rightarrow> string \<Rightarrow> string \<Rightarrow> error + TokenResponse"
  new_KeyVaultClient :: "(Challenge \<Rightarrow> error + string) \<Rightarrow> KeyVaultClient"

datatype event =
    Console_log string
  | Console_log_versions "SecretItem list"
  | Call_getSecretVersions string string
  | Call_getSecret string string string

subsection \<open>Library functions of the language\<close>

text \<open>
  \<open>Array.prototype.sort\<close> with a comparison function, as an insertion sort: each
  element moves left past the elements \<open>tmp\<close> with \<open>comparefn(tmp, element) > 0\<close>.
  \<open>insert_backwards\<close> works on the sorted prefix in reverse, nearest element first.
  The comparison function of \<open>getSecret\<close> never returns 0, so for versions of equal
  creation time the order is the engine's own; this function keeps them in listing
  order, and nothing below relies on which of them comes first.
\<close>

fun insert_backwards :: "('a \<Rightarrow> 'a \<Rightarrow> int) \<Rightarrow> 'a \<Rightarrow> 'a list \<Rightarrow> 'a list" where
  "insert_backwards comparefn element [] = [element]"
| "insert_backwards comparefn element (tmp # rest) =
     (if comparefn tmp element > 0 then tmp # insert_backwards comparefn element rest
      else element # tmp # rest)"

definition Array_sort :: "('a \<Rightarrow> 'a \<Rightarrow> int) \<Rightarrow> 'a list \<Rightarrow> 'a list" where
  "Array_sort comparefn a =
     rev (foldl (\<lambda>prefix element. insert_backwards comparefn element prefix) [] a)"

text \<open>\<open>s.split(sep)\<close> for a one-character separator; the result is never empty.\<close>

fun String_split :: "char \<Rightarrow> string \<Rightarrow> string list" where
  "String_split sep [] = [[]]"
| "String_split sep (c # cs) =
     (if c = sep then [] # String_split sep cs
      else (case String_split sep cs of
              [] \<Rightarrow> [[c]]
            | part # parts \<Rightarrow> (c # part) # parts))"

text \<open>Truthiness of a value that is a string or \<open>undefined\<close>.\<close>

definition truthy :: "string option \<Rightarrow> bool" where
  "truthy v = (case v of None \<Rightarrow> False | Some s \<Rightarrow> s \<noteq> [])"

subsection \<open>getSecret\<close>

definition must_set :: string where
  "must_set = ''Must set the TYPES_PUBLISHER_CLIENT_ID and TYPES_PUBLISHER_CLIENT_SECRET environment variables.''"

text \<open>
  The callback given to \<open>KeyVaultCredentials\<close>. On an error of the identity provider
  it throws and never calls back (\<open>Inl\<close>); otherwise it calls back with the header
  value (\<open>Inr\<close>).
\<close>

definition credentials :: "platform \<Rightarrow> string \<Rightarrow> string \<Rightarrow> Challenge \<Rightarrow> error + string" where
  "credentials p clientId clientSecret challenge =
     (case acquireTokenWithClientCredentials p (authorization challenge) (resource challenge)
             clientId clientSecret of
        Inl error \<Rightarrow> Inl error
      | Inr tokenResponse \<Rightarrow> Inr (tokenType tokenResponse @ '' '' @ accessToken tokenResponse))"

text \<open>The comparison function handed to \<open>sort\<close>.\<close>

definition newest_first :: "SecretItem \<Rightarrow> SecretItem \<Rightarrow> int" where
  "newest_first a b = (if created (attributes a) < created (attributes b) then 1 else - 1)"

definition getSecret :: "platform \<Rightarrow> Secret \<Rightarrow> (error + string) \<times> event list" where
  "getSecret p secret =
     (let clientId = process_env p ''TYPES_PUBLISHER_CLIENT_ID'';
          clientSecret = process_env p ''TYPES_PUBLISHER_CLIENT_SECRET''
      in if \<not> (truthy clientId \<and> truthy clientSecret) then (Inl (Error must_set), [])
         else
          (let client = new_KeyVaultClient p (credentials p (the clientId) (the clientSecret));
               name = azureSecretName secret;
               log1 = [Console_log (''Getting versions for: '' @ name),
                       Call_getSecretVersions (azureKeyvault p) name]
           in (case getSecretVersions client (azureKeyvault p) name of
                 Inl e \<Rightarrow> (Inl e, log1)
               | Inr listed \<Rightarrow>
                  (let versions = Array_sort newest_first listed;
                       log2 = log1 @ [Console_log_versions versions]
                   in (case versions of
                         [] \<Rightarrow> (Inl (TypeError ''id''), log2)
                       | first # _ \<Rightarrow>
                          (let urlParts = String_split (CHR ''/'') (id' first);
                               latest = urlParts ! (length urlParts - 1);
                               log3 = log2 @ [Call_getSecret (azureKeyvault p) name latest]
                           in (case getSecret' client (azureKeyvault p) name latest of
                                 Inl e \<Rightarrow> (Inl e, log3)
                               | Inr bundle \<Rightarrow> (Inr (value' bundle), log3))))))))"

subsection \<open>Notions used to state the properties\<close>

text \<open>A list of versions ordered by creation time, oldest first.\<close>

definition oldest_first :: "SecretItem list \<Rightarrow> bool" where
  "oldest_first xs = sorted_wrt (\<lambda>a b. created (attributes a) \<le> created (attributes b)) xs"

text \<open>
  The terminal segment in the specification's words: the part of \<open>s\<close> after its last
  separator (all of \<open>s\<close> when it holds none).
\<close>

definition after_last :: "char \<Rightarrow> string \<Rightarrow> string" where
  "after_last sep s = rev (takeWhile (\<lambda>c. c \<noteq> sep) (rev s))"

subsection \<open>A concrete platform\<close>

text \<open>
  A vault that answers every request with an authorization challenge, accepts the
  header \<open>Bearer app:pw\<close> and then serves the stored versions; an identity provider
  that issues the bearer token \<open>clientId:clientSecret\<close>.
\<close>

definition example_challenge :: Challenge where
  "example_challenge =
     \<lparr>authorization = ''https://login.example/tenant'', resource = ''https://vault.example''\<rparr>"

definition example_client ::
    "SecretItem list \<Rightarrow> (Challenge \<Rightarrow> error + string) \<Rightarrow> KeyVaultClient" where
  "example_client stored authenticator =
     \<lparr>getSecretVersions = (\<lambda>vaultBaseUrl secretName.
        case authenticator example_challenge of
          Inl e \<Rightarrow> Inl e
        | Inr header \<Rightarrow>
            if header = ''Bearer app:pw'' then Inr stored else Inl (Raised ''Unauthorized'')),
      getSecret' = (\<lambda>vaultBaseUrl secretName secretVersion.
        case authenticator example_challenge of
          Inl e \<Rightarrow> Inl e
        | Inr header \<Rightarrow>
            if header = ''Bearer app:pw''
            then Inr \<lparr>value' = ''value of '' @ secretName @ ''/'' @ secretVersion\<rparr>
            else Inl (Raised ''Unauthorized''))\<rparr>"

definition example_platform :: "(string \<rightharpoonup> string) \<Rightarrow> SecretItem list \<Rightarrow> platform" where
  "example_platform environment stored =
     \<lparr>process_env = environment,
      azureKeyvault = ''https://vault.example'',
      acquireTokenWithClientCredentials = (\<lambda>authority resource clientId clientSecret.
        Inr \<lparr>tokenType = ''Bearer'', accessToken = clientId @ '':'' @ clientSecret\<rparr>),
      new_KeyVaultClient = example_client stored\<rparr>"

definition example_env :: "string \<rightharpoonup> string" where
  "example_env =
     [''TYPES_PUBLISHER_CLIENT_ID'' \<mapsto> ''app'', ''TYPES_PUBLISHER_CLIENT_SECRET'' \<mapsto> ''pw'']"

definition example_versions :: "SecretItem list" where
  "example_versions =
     [\<lparr>id' = ''https://vault.example/secrets/npm-token/v1'', attributes = \<lparr>created = 1000\<rparr>\<rparr>,
      \<lparr>id' = ''https://vault.example/secrets/npm-token/v2'', attributes = \<lparr>created = 2000\<rparr>\<rparr>]"

section \<open>Properties\<close>

subsection \<open>The sort puts the newest version first\<close>

lemma mset_insert_backwards: "mset (insert_backwards f e xs) = add_mset e (mset xs)"
  by (induction xs) auto

lemma set_insert_backwards: "set (insert_backwards f e xs) = insert e (set xs)"
  by (induction xs) auto


lemma oldest_first_insert:
  "oldest_first xs \<Longrightarrow> oldest_first (insert_backwards newest_first e xs)"
  by (induction xs) (auto simp: oldest_first_def newest_first_def set_insert_backwards)

lemma foldl_insert_mset:
  "mset (foldl (\<lambda>prefix element. insert_backwards f element prefix) acc xs) = mset acc + mset xs"
  by (induction xs arbitrary: acc) (auto simp: mset_insert_backwards)

lemma foldl_insert_sorted:
  "oldest_first acc \<Longrightarrow>
   oldest_first (foldl (\<lambda>prefix element. insert_backwards newest_first element prefix) acc xs)"
  by (induction xs arbitrary: acc) (auto simp: oldest_first_insert)

lemma mset_Array_sort: "mset (Array_sort f xs) = mset xs"
  by (simp add: Array_sort_def foldl_insert_mset)

lemma set_Array_sort: "set (Array_sort f xs) = set xs"
  using mset_Array_sort[of f xs] by (metis set_mset_mset)

lemma sorted_Array_sort:
  "sorted_wrt (\<lambda>a b. created (attributes b) \<le> created (attributes a)) (Array_sort newest_first xs)"
  using foldl_insert_sorted[of "[]" xs]
  by (simp add: Array_sort_def oldest_first_def sorted_wrt_rev)

lemma Array_sort_head:
  assumes "xs \<noteq> []"
  obtains v rest where "Array_sort newest_first xs = v # rest" "v \<in> set xs"
    "\<forall>u \<in> set xs. created (attributes u) \<le> created (attributes v)"
proof -
  have "Array_sort newest_first xs \<noteq> []"
    using assms set_Array_sort[of newest_first xs] by auto
  then obtain v rest where vr: "Array_sort newest_first xs = v # rest"
    by (cases "Array_sort newest_first xs") auto
  have "v \<in> set xs" using vr set_Array_sort[of newest_first xs] by auto
  moreover have "\<forall>u \<in> set xs. created (attributes u) \<le> created (attributes v)"
    using sorted_Array_sort[of xs] set_Array_sort[of newest_first xs] vr by auto
  ultimately show ?thesis using vr that by blast
qed

text \<open>
  With pairwise distinct creation times there is one newest-first arrangement of the
  listed versions, so every sort that orders by this comparison function returns what
  \<open>Array_sort\<close> returns.
\<close>

lemma newest_first_unique:
  assumes perm: "mset ys = mset xs"
    and ordered: "sorted_wrt (\<lambda>a b. created (attributes b) \<le> created (attributes a)) ys"
    and different: "distinct (map (\<lambda>v. created (attributes v)) xs)"
  shows "ys = Array_sort newest_first xs"
proof -
  let ?key = "\<lambda>v. created (attributes v)"
  let ?zs = "Array_sort newest_first xs"
  have inj: "inj_on ?key (set xs)" and dxs: "distinct xs"
    using different by (simp_all add: distinct_map)
  have sets: "set ys = set xs" "set ?zs = set xs"
    using mset_eq_setD[OF perm] set_Array_sort[of newest_first xs] by simp_all
  have dys: "distinct ys"
    using mset_eq_imp_distinct_iff[OF perm] dxs by simp
  have dzs: "distinct ?zs"
    using mset_eq_imp_distinct_iff[OF mset_Array_sort[of newest_first xs]] dxs by simp
  have desc: "sorted (rev (map ?key zs))"
    if "sorted_wrt (\<lambda>a b. ?key b \<le> ?key a) zs" for zs :: "SecretItem list"
    using that by (simp add: sorted_wrt_rev sorted_wrt_map flip: rev_map)
  have "rev (map ?key ys) = rev (map ?key ?zs)"
  proof (rule sorted_distinct_set_unique)
    show "sorted (rev (map ?key ys))" using desc[OF ordered] .
    show "sorted (rev (map ?key ?zs))" using desc[OF sorted_Array_sort] .
    show "distinct (rev (map ?key ys))" using dys inj sets by (simp add: distinct_map)
    show "distinct (rev (map ?key ?zs))" using dzs inj sets by (simp add: distinct_map)
    show "set (rev (map ?key ys)) = set (rev (map ?key ?zs))" using sets by simp
  qed
  then have "map ?key ys = map ?key ?zs" by simp
  moreover have "inj_on ?key (set ys \<union> set ?zs)"
    using inj sets by simp
  ultimately show ?thesis
    using inj_on_map_eq_map[of ?key ys ?zs] by simp
qed

subsection \<open>The last part of a split string\<close>

lemma String_split_nonempty: "String_split sep s \<noteq> []"
  by (induction s) (auto split: list.splits)


lemma String_split_no_sep: "sep \<notin> set s \<Longrightarrow> String_split sep s = [s]"
  by (induction s) (auto split: list.splits)

lemma String_split_length: "sep \<in> set s \<Longrightarrow> 2 \<le> length (String_split sep s)"
proof (induction s)
  case Nil
  then show ?case by simp
next
  case (Cons c cs)
  show ?case
  proof (cases "c = sep")
    case True
    then show ?thesis
      using String_split_nonempty[of sep cs] by (cases "String_split sep cs") auto
  next
    case False
    then have "sep \<in> set cs" using Cons.prems by simp
    then show ?thesis using False Cons.IH by (auto split: list.splits)
  qed
qed

lemma String_split_last:
  "last (String_split sep s) = after_last sep s"
proof (induction s)
  case Nil
  show ?case by (simp add: after_last_def)
next
  case (Cons c cs)
  show ?case
  proof (cases "sep \<in> set cs")
    case True
    from String_split_length[OF True] obtain a b rest where "String_split sep cs = a # b # rest"
      by (cases "String_split sep cs"; cases "tl (String_split sep cs)") auto
    then show ?thesis using Cons True
      by (auto simp: after_last_def takeWhile_append)
  next
    case False
    then show ?thesis
      by (auto simp: String_split_no_sep after_last_def takeWhile_append)
  qed
qed

lemma after_last_free: "sep \<notin> set (after_last sep s)"
proof -
  have "\<forall>c \<in> set (takeWhile (\<lambda>c. c \<noteq> sep) (rev s)). c \<noteq> sep"
    using set_takeWhileD by fastforce
  then show ?thesis by (auto simp: after_last_def)
qed

lemma after_last_suffix:
  "\<exists>before. s = before @ after_last sep s \<and> (before = [] \<or> last before = sep)"
proof -
  let ?r = "rev s"
  have split: "?r = takeWhile (\<lambda>c. c \<noteq> sep) ?r @ dropWhile (\<lambda>c. c \<noteq> sep) ?r"
    by simp
  have "s = rev (dropWhile (\<lambda>c. c \<noteq> sep) ?r) @ after_last sep s"
    unfolding after_last_def using split by (metis rev_append rev_rev_ident)
  moreover have "rev (dropWhile (\<lambda>c. c \<noteq> sep) ?r) = [] \<or>
                 last (rev (dropWhile (\<lambda>c. c \<noteq> sep) ?r)) = sep"
  proof (cases "dropWhile (\<lambda>c. c \<noteq> sep) ?r")
    case Nil
    then show ?thesis by simp
  next
    case (Cons y ys)
    then have "y = sep" using hd_dropWhile[of "\<lambda>c. c \<noteq> sep" ?r] by (metis list.discI list.sel(1))
    then show ?thesis using Cons by simp
  qed
  ultimately show ?thesis by blast
qed

lemma after_last_append: "sep \<notin> set v \<Longrightarrow> after_last sep (prefix @ sep # v) = v"
  by (simp add: after_last_def takeWhile_append)

lemma Array_sort_pair:
  "created (attributes a) < created (attributes b) \<Longrightarrow> Array_sort newest_first [a, b] = [b, a]"
  by (simp add: Array_sort_def newest_first_def)

subsection \<open>The derived names, member by member\<close>

lemma Secret_name_table:
  "Secret_name AZURE_STORAGE_ACCESS_KEY = ''AZURE_STORAGE_ACCESS_KEY''"
  "Secret_name GITHUB_ACCESS_TOKEN = ''GITHUB_ACCESS_TOKEN''"
  "Secret_name GITHUB_SECRET = ''GITHUB_SECRET''"
  "Secret_name NPM_TOKEN = ''NPM_TOKEN''"
  by code_simp+

lemma Secret_name_key: "Secret_name secret = Secret_key secret"
  by (cases secret) (simp_all add: Secret_name_table)

lemma replace_global_char:
  "replace_global c [r] s = map (\<lambda>x. if x = c then r else x) s"
  by (induction s) (simp_all add: replace_global_def)

lemma azureSecretName_characters:
  "azureSecretName secret =
     map (\<lambda>c. if c = CHR ''_'' then CHR ''-'' else c) (toLowerCase (Secret_name secret))"
  by (simp add: azureSecretName_def replace_global_char)

lemma azureSecretName_shape:
  "list_all (\<lambda>c. \<not> is_upper c \<and> c \<noteq> CHR ''_'') (azureSecretName AZURE_STORAGE_ACCESS_KEY)"
  "list_all (\<lambda>c. \<not> is_upper c \<and> c \<noteq> CHR ''_'') (azureSecretName GITHUB_ACCESS_TOKEN)"
  "list_all (\<lambda>c. \<not> is_upper c \<and> c \<noteq> CHR ''_'') (azureSecretName GITHUB_SECRET)"
  "list_all (\<lambda>c. \<not> is_upper c \<and> c \<noteq> CHR ''_'') (azureSecretName NPM_TOKEN)"
  by code_simp+

lemma azureSecretName_fixed:
  "toLowerCase (azureSecretName AZURE_STORAGE_ACCESS_KEY) = azureSecretName AZURE_STORAGE_ACCESS_KEY"
  "toLowerCase (azureSecretName GITHUB_ACCESS_TOKEN) = azureSecretName GITHUB_ACCESS_TOKEN"
  "toLowerCase (azureSecretName GITHUB_SECRET) = azureSecretName GITHUB_SECRET"
  "toLowerCase (azureSecretName NPM_TOKEN) = azureSecretName NPM_TOKEN"
  by code_simp+

lemma azureSecretName_table:
  "azureSecretName AZURE_STORAGE_ACCESS_KEY = ''azure-storage-access-key''"
  "azureSecretName GITHUB_ACCESS_TOKEN = ''github-access-token''"
  "azureSecretName GITHUB_SECRET = ''github-secret''"
  "azureSecretName NPM_TOKEN = ''npm-token''"
  by code_simp+

subsection \<open>The steps of getSecret\<close>

lemma getSecret_unset:
  "\<not> (truthy (process_env p ''TYPES_PUBLISHER_CLIENT_ID'') \<and>
       truthy (process_env p ''TYPES_PUBLISHER_CLIENT_SECRET'')) \<Longrightarrow>
   getSecret p secret = (Inl (Error must_set), [])"
  by (simp add: getSecret_def)

lemma getSecret_listing:
  assumes "process_env p ''TYPES_PUBLISHER_CLIENT_ID'' = Some clientId" and "clientId \<noteq> []"
    and "process_env p ''TYPES_PUBLISHER_CLIENT_SECRET'' = Some clientSecret" and "clientSecret \<noteq> []"
    and "client = new_KeyVaultClient p (credentials p clientId clientSecret)"
  shows "getSecret p secret =
     (case getSecretVersions client (azureKeyvault p) (azureSecretName secret) of
        Inl e \<Rightarrow> (Inl e, [Console_log (''Getting versions for: '' @ azureSecretName secret),
                              Call_getSecretVersions (azureKeyvault p) (azureSecretName secret)])
      | Inr listed \<Rightarrow>
         (case Array_sort newest_first listed of
            [] \<Rightarrow> (Inl (TypeError ''id''),
                    [Console_log (''Getting versions for: '' @ azureSecretName secret),
                     Call_getSecretVersions (azureKeyvault p) (azureSecretName secret),
                     Console_log_versions []])
          | first # rest \<Rightarrow>
              (case getSecret' client (azureKeyvault p) (azureSecretName secret)
                      (last (String_split (CHR ''/'') (id' first))) of
                 Inl e \<Rightarrow> Inl e
               | Inr bundle \<Rightarrow> Inr (value' bundle),
               [Console_log (''Getting versions for: '' @ azureSecretName secret),
                Call_getSecretVersions (azureKeyvault p) (azureSecretName secret),
                Console_log_versions (first # rest),
                Call_getSecret (azureKeyvault p) (azureSecretName secret)
                  (last (String_split (CHR ''/'') (id' first)))])))"
  using assms
  by (simp add: getSecret_def truthy_def Let_def last_conv_nth String_split_nonempty
           split: sum.splits list.splits)

lemma getSecret_listing_rejected:
  assumes "process_env p ''TYPES_PUBLISHER_CLIENT_ID'' = Some clientId" and "clientId \<noteq> []"
    and "process_env p ''TYPES_PUBLISHER_CLIENT_SECRET'' = Some clientSecret" and "clientSecret \<noteq> []"
    and "getSecretVersions (new_KeyVaultClient p (credentials p clientId clientSecret))
           (azureKeyvault p) (azureSecretName secret) = Inl e"
  shows "fst (getSecret p secret) = Inl e"
  using getSecret_listing[OF assms(1-4) refl, of secret] assms(5) by simp

subsection \<open>Selecting the newest version\<close>

text \<open>
  C1. When the credentials are set and the vault lists a non-empty collection of
  versions whose creation times are pairwise distinct, there is a version among them
  that is strictly newer than every other one, and it is the one resolved: the last
  call of \<open>getSecret\<close> fetches the version named by the last part of that version's
  id, and the result is the value (or the rejection) of that fetch.
\<close>

theorem getSecret_selects_newest:
  assumes "process_env p ''TYPES_PUBLISHER_CLIENT_ID'' = Some clientId" and "clientId \<noteq> []"
    and "process_env p ''TYPES_PUBLISHER_CLIENT_SECRET'' = Some clientSecret" and "clientSecret \<noteq> []"
    and "client = new_KeyVaultClient p (credentials p clientId clientSecret)"
    and "getSecretVersions client (azureKeyvault p) (azureSecretName secret) = Inr versions"
    and "versions \<noteq> []"
    and "distinct (map (\<lambda>v. created (attributes v)) versions)"
  shows "\<exists>newest \<in> set versions.
           (\<forall>v \<in> set versions. v \<noteq> newest \<longrightarrow>
              created (attributes v) < created (attributes newest)) \<and>
           (\<exists>latest.
              last (snd (getSecret p secret)) =
                Call_getSecret (azureKeyvault p) (azureSecretName secret) latest \<and>
              latest = last (String_split (CHR ''/'') (id' newest)) \<and>
              fst (getSecret p secret) =
                (case getSecret' client (azureKeyvault p) (azureSecretName secret) latest of
                   Inl e \<Rightarrow> Inl e
                 | Inr bundle \<Rightarrow> Inr (value' bundle)))"
proof -
  obtain newest rest where sorted: "Array_sort newest_first versions = newest # rest"
    and mem: "newest \<in> set versions"
    and top: "\<forall>u \<in> set versions. created (attributes u) \<le> created (attributes newest)"
    using Array_sort_head[OF \<open>versions \<noteq> []\<close>] by blast
  have strict: "\<forall>v \<in> set versions. v \<noteq> newest \<longrightarrow>
                  created (attributes v) < created (attributes newest)"
  proof (intro ballI impI)
    fix v assume v: "v \<in> set versions" "v \<noteq> newest"
    have "inj_on (\<lambda>v. created (attributes v)) (set versions)"
      using assms(8) by (simp add: distinct_map)
    then have "created (attributes v) \<noteq> created (attributes newest)"
      using v mem by (auto dest: inj_onD)
    then show "created (attributes v) < created (attributes newest)"
      using top v(1) by fastforce
  qed
  have run: "getSecret p secret =
      (case getSecret' client (azureKeyvault p) (azureSecretName secret)
              (last (String_split (CHR ''/'') (id' newest))) of
         Inl e \<Rightarrow> Inl e
       | Inr bundle \<Rightarrow> Inr (value' bundle),
       [Console_log (''Getting versions for: '' @ azureSecretName secret),
        Call_getSecretVersions (azureKeyvault p) (azureSecretName secret),
        Console_log_versions (newest # rest),
        Call_getSecret (azureKeyvault p) (azureSecretName secret)
          (last (String_split (CHR ''/'') (id' newest)))])"
    using getSecret_listing[OF assms(1-5), of secret] assms(6) sorted by simp
  show ?thesis
    using mem strict run by auto
qed


theorem getSecret_selects_newest_witness:
  "fst (getSecret (example_platform example_env example_versions) NPM_TOKEN)
     = Inr ''value of npm-token/v2''"
proof -
  let ?p = "example_platform example_env example_versions"
  let ?client = "new_KeyVaultClient ?p (credentials ?p ''app'' ''pw'')"
  have e1: "process_env ?p ''TYPES_PUBLISHER_CLIENT_ID'' = Some ''app''"
    by (simp add: example_platform_def example_env_def)
  have e2: "process_env ?p ''TYPES_PUBLISHER_CLIENT_SECRET'' = Some ''pw''"
    by (simp add: example_platform_def example_env_def)
  have l: "getSecretVersions ?client (azureKeyvault ?p) (azureSecretName NPM_TOKEN) = Inr example_versions"
    by (simp add: example_platform_def example_client_def credentials_def)
  have ne: "example_versions \<noteq> []" by (simp add: example_versions_def)
  have d: "distinct (map (\<lambda>v. created (attributes v)) example_versions)"
    by (simp add: example_versions_def)
  from getSecret_selects_newest[OF e1 _ e2 _ refl l ne d]
  obtain newest where n: "newest \<in> set example_versions"
    and newer: "\<forall>v \<in> set example_versions. v \<noteq> newest \<longrightarrow>
              created (attributes v) < created (attributes newest)"
    and r: "fst (getSecret ?p NPM_TOKEN) =
       (case getSecret' ?client (azureKeyvault ?p) (azureSecretName NPM_TOKEN)
               (last (String_split (CHR ''/'') (id' newest))) of
          Inl e \<Rightarrow> Inl e | Inr bundle \<Rightarrow> Inr (value' bundle))"
    by auto
  have "newest = \<lparr>id' = ''https://vault.example/secrets/npm-token/v2'', attributes = \<lparr>created = 2000\<rparr>\<rparr>"
    using n newer by (auto simp: example_versions_def)
  moreover have "azureSecretName NPM_TOKEN = ''npm-token''" by code_simp
  moreover have "last (String_split (CHR ''/'') ''https://vault.example/secrets/npm-token/v2'') = ''v2''"
    by code_simp
  ultimately show ?thesis using r
    by (simp add: example_platform_def example_client_def credentials_def)
qed

subsection \<open>The version identifier\<close>

text \<open>
  C6. When the credentials are set and the vault lists at least one version, the
  version selected is one of the newest, and the identifier \<open>getSecret\<close> fetches is
  the part of that version's id after its last \<open>/\<close>: the call is made for the derived
  secret name and that identifier, and its value is the result.
\<close>

theorem getSecret_fetches_terminal_segment:
  assumes "process_env p ''TYPES_PUBLISHER_CLIENT_ID'' = Some clientId" and "clientId \<noteq> []"
    and "process_env p ''TYPES_PUBLISHER_CLIENT_SECRET'' = Some clientSecret" and "clientSecret \<noteq> []"
    and "client = new_KeyVaultClient p (credentials p clientId clientSecret)"
    and "getSecretVersions client (azureKeyvault p) (azureSecretName secret) = Inr versions"
    and "versions \<noteq> []"
  shows "\<exists>selected \<in> set versions. \<exists>logged.
           (\<forall>v \<in> set versions. created (attributes v) \<le> created (attributes selected)) \<and>
           getSecret p secret =
             (case getSecret' client (azureKeyvault p) (azureSecretName secret)
                     (after_last (CHR ''/'') (id' selected)) of
                Inl e \<Rightarrow> Inl e
              | Inr bundle \<Rightarrow> Inr (value' bundle),
              [Console_log (''Getting versions for: '' @ azureSecretName secret),
               Call_getSecretVersions (azureKeyvault p) (azureSecretName secret),
               Console_log_versions logged,
               Call_getSecret (azureKeyvault p) (azureSecretName secret)
                 (after_last (CHR ''/'') (id' selected))])"
proof -
  obtain selected rest where sorted: "Array_sort newest_first versions = selected # rest"
    and mem: "selected \<in> set versions"
    and top: "\<forall>u \<in> set versions. created (attributes u) \<le> created (attributes selected)"
    using Array_sort_head[OF \<open>versions \<noteq> []\<close>] by blast
  have "getSecret p secret =
      (case getSecret' client (azureKeyvault p) (azureSecretName secret)
              (after_last (CHR ''/'') (id' selected)) of
         Inl e \<Rightarrow> Inl e
       | Inr bundle \<Rightarrow> Inr (value' bundle),
       [Console_log (''Getting versions for: '' @ azureSecretName secret),
        Call_getSecretVersions (azureKeyvault p) (azureSecretName secret),
        Console_log_versions (selected # rest),
        Call_getSecret (azureKeyvault p) (azureSecretName secret)
          (after_last (CHR ''/'') (id' selected))])"
    using getSecret_listing[OF assms(1-5), of secret] assms(6) sorted
    by (simp add: String_split_last)
  then show ?thesis using mem top by blast
qed

theorem getSecret_fetches_terminal_segment_witness:
  "last (snd (getSecret (example_platform example_env example_versions) NPM_TOKEN)) =
     Call_getSecret ''https://vault.example'' ''npm-token'' ''v2''"
proof -
  let ?p = "example_platform example_env example_versions"
  let ?client = "new_KeyVaultClient ?p (credentials ?p ''app'' ''pw'')"
  have e1: "process_env ?p ''TYPES_PUBLISHER_CLIENT_ID'' = Some ''app''"
    by (simp add: example_platform_def example_env_def)
  have e2: "process_env ?p ''TYPES_PUBLISHER_CLIENT_SECRET'' = Some ''pw''"
    by (simp add: example_platform_def example_env_def)
  have l: "getSecretVersions ?client (azureKeyvault ?p) (azureSecretName NPM_TOKEN) =
             Inr example_versions"
    by (simp add: example_platform_def example_client_def credentials_def)
  have ne: "example_versions \<noteq> []" by (simp add: example_versions_def)
  from getSecret_fetches_terminal_segment[OF e1 _ e2 _ refl l ne]
  obtain selected where s: "selected \<in> set example_versions"
    and top: "\<forall>v \<in> set example_versions. created (attributes v) \<le> created (attributes selected)"
    and r: "last (snd (getSecret ?p NPM_TOKEN)) =
       Call_getSecret (azureKeyvault ?p) (azureSecretName NPM_TOKEN)
         (after_last (CHR ''/'') (id' selected))"
    by auto
  have "selected = \<lparr>id' = ''https://vault.example/secrets/npm-token/v2'',
                     attributes = \<lparr>created = 2000\<rparr>\<rparr>"
    using s top by (auto simp: example_versions_def)
  moreover have "azureSecretName NPM_TOKEN = ''npm-token''" by code_simp
  moreover have "after_last (CHR ''/'') ''https://vault.example/secrets/npm-token/v2'' = ''v2''"
    by code_simp
  ultimately show ?thesis using r by (simp add: example_platform_def)
qed

text \<open>
  The scenario of two versions with ids ending in \<open>/v1\<close> and \<open>/v2\<close>, the second
  created later: version \<open>v2\<close> is fetched and its value returned.
\<close>

lemma getSecret_two_versions:
  assumes "process_env p ''TYPES_PUBLISHER_CLIENT_ID'' = Some clientId" and "clientId \<noteq> []"
    and "process_env p ''TYPES_PUBLISHER_CLIENT_SECRET'' = Some clientSecret" and "clientSecret \<noteq> []"
    and "client = new_KeyVaultClient p (credentials p clientId clientSecret)"
    and "getSecretVersions client (azureKeyvault p) (azureSecretName secret) =
           Inr [\<lparr>id' = prefix1 @ ''/v1'', attributes = \<lparr>created = T1\<rparr>\<rparr>,
                \<lparr>id' = prefix2 @ ''/v2'', attributes = \<lparr>created = T2\<rparr>\<rparr>]"
    and "T1 < T2"
    and "getSecret' client (azureKeyvault p) (azureSecretName secret) ''v2'' = Inr bundle"
  shows "fst (getSecret p secret) = Inr (value' bundle)"
    and "last (snd (getSecret p secret)) =
           Call_getSecret (azureKeyvault p) (azureSecretName secret) ''v2''"
proof -
  have "after_last (CHR ''/'') (prefix2 @ ''/v2'') = ''v2''"
    using after_last_append[of "CHR ''/''" "''v2''" prefix2] by simp
  then have "last (String_split (CHR ''/'') (prefix2 @ ''/v2'')) = ''v2''"
    by (simp only: String_split_last)
  moreover have "Array_sort newest_first
           [\<lparr>id' = prefix1 @ ''/v1'', attributes = \<lparr>created = T1\<rparr>\<rparr>,
            \<lparr>id' = prefix2 @ ''/v2'', attributes = \<lparr>created = T2\<rparr>\<rparr>] =
           [\<lparr>id' = prefix2 @ ''/v2'', attributes = \<lparr>created = T2\<rparr>\<rparr>,
            \<lparr>id' = prefix1 @ ''/v1'', attributes = \<lparr>created = T1\<rparr>\<rparr>]"
    using \<open>T1 < T2\<close> by (simp add: Array_sort_pair)
  ultimately have "getSecret p secret =
     (Inr (value' bundle),
      [Console_log (''Getting versions for: '' @ azureSecretName secret),
       Call_getSecretVersions (azureKeyvault p) (azureSecretName secret),
       Console_log_versions
           [\<lparr>id' = prefix2 @ ''/v2'', attributes = \<lparr>created = T2\<rparr>\<rparr>,
            \<lparr>id' = prefix1 @ ''/v1'', attributes = \<lparr>created = T1\<rparr>\<rparr>],
       Call_getSecret (azureKeyvault p) (azureSecretName secret) ''v2''])"
    using getSecret_listing[OF assms(1-5), of secret] assms(6) assms(8) by simp
  then show "fst (getSecret p secret) = Inr (value' bundle)"
    and "last (snd (getSecret p secret)) =
           Call_getSecret (azureKeyvault p) (azureSecretName secret) ''v2''"
    by simp_all
qed

subsection \<open>No versions\<close>

text \<open>
  C2, as amended. When the credentials are set and the vault lists no version for
  the derived secret name, the promise is rejected with the runtime's \<open>TypeError\<close> for
  reading \<open>id\<close> of the missing first element; the listing has been requested, no
  value is requested, and none is returned. The module raises no error of its own
  for a secret without versions.
\<close>

theorem getSecret_no_versions:
  assumes "process_env p ''TYPES_PUBLISHER_CLIENT_ID'' = Some clientId" and "clientId \<noteq> []"
    and "process_env p ''TYPES_PUBLISHER_CLIENT_SECRET'' = Some clientSecret" and "clientSecret \<noteq> []"
    and "client = new_KeyVaultClient p (credentials p clientId clientSecret)"
    and "getSecretVersions client (azureKeyvault p) (azureSecretName secret) = Inr []"
  shows "getSecret p secret =
     (Inl (TypeError ''id''),
      [Console_log (''Getting versions for: '' @ azureSecretName secret),
       Call_getSecretVersions (azureKeyvault p) (azureSecretName secret),
       Console_log_versions []])"
  using getSecret_listing[OF assms(1-5), of secret] assms(6)
  by (simp add: Array_sort_def)

theorem getSecret_no_versions_witness:
  "getSecret (example_platform example_env []) GITHUB_SECRET =
     (Inl (TypeError ''id''),
      [Console_log ''Getting versions for: github-secret'',
       Call_getSecretVersions ''https://vault.example'' ''github-secret'',
       Console_log_versions []])"
proof -
  let ?p = "example_platform example_env []"
  have e1: "process_env ?p ''TYPES_PUBLISHER_CLIENT_ID'' = Some ''app''"
    by (simp add: example_platform_def example_env_def)
  have e2: "process_env ?p ''TYPES_PUBLISHER_CLIENT_SECRET'' = Some ''pw''"
    by (simp add: example_platform_def example_env_def)
  have l: "getSecretVersions (new_KeyVaultClient ?p (credentials ?p ''app'' ''pw''))
             (azureKeyvault ?p) (azureSecretName GITHUB_SECRET) = Inr []"
    by (simp add: example_platform_def example_client_def credentials_def)
  have n: "azureSecretName GITHUB_SECRET = ''github-secret''" by code_simp
  from getSecret_no_versions[OF e1 _ e2 _ refl l]
  show ?thesis by (simp add: n example_platform_def)
qed

text \<open>
  C2 as stated fails: with the credentials set and an empty listing, the failure is
  the \<open>TypeError\<close> of the property read, not an error that reports a missing secret.
\<close>

theorem getSecret_no_versions_counterexample:
  "fst (getSecret (example_platform example_env []) NPM_TOKEN) = Inl (TypeError ''id'')"
  by code_simp

subsection \<open>The credentials in the environment\<close>

text \<open>
  C3. When either credential variable is unset, \<open>getSecret\<close> throws the error that
  asks for both variables, whatever the collaborators are, and has made no call: the
  list of events is empty, so neither the console nor the vault client was used.
\<close>

theorem getSecret_unset_credentials:
  assumes "process_env p ''TYPES_PUBLISHER_CLIENT_ID'' = None \<or>
           process_env p ''TYPES_PUBLISHER_CLIENT_SECRET'' = None"
  shows "getSecret p secret = (Inl (Error must_set), [])"
  using assms by (auto simp: getSecret_def truthy_def)

theorem getSecret_unset_credentials_witness:
  "getSecret (example_platform [''TYPES_PUBLISHER_CLIENT_ID'' \<mapsto> ''app''] example_versions)
     GITHUB_SECRET =
   (Inl (Error ''Must set the TYPES_PUBLISHER_CLIENT_ID and TYPES_PUBLISHER_CLIENT_SECRET environment variables.''), [])"
proof -
  let ?p = "example_platform [''TYPES_PUBLISHER_CLIENT_ID'' \<mapsto> ''app''] example_versions"
  have "process_env ?p ''TYPES_PUBLISHER_CLIENT_ID'' = None \<or>
        process_env ?p ''TYPES_PUBLISHER_CLIENT_SECRET'' = None"
    by (simp add: example_platform_def)
  from getSecret_unset_credentials[OF this, of GITHUB_SECRET]
  show ?thesis by (simp add: must_set_def)
qed

text \<open>
  C8. A credential variable that is set to the empty string is falsy: the same error
  is thrown as for an unset variable, again before any call.
\<close>

theorem getSecret_empty_credentials:
  assumes "process_env p ''TYPES_PUBLISHER_CLIENT_ID'' = Some [] \<or>
           process_env p ''TYPES_PUBLISHER_CLIENT_SECRET'' = Some []"
  shows "getSecret p secret = (Inl (Error must_set), [])"
  using assms by (auto simp: getSecret_def truthy_def)

theorem getSecret_empty_credentials_witness:
  "getSecret (example_platform
       [''TYPES_PUBLISHER_CLIENT_ID'' \<mapsto> ''app'', ''TYPES_PUBLISHER_CLIENT_SECRET'' \<mapsto> '''']
       example_versions) GITHUB_ACCESS_TOKEN =
   getSecret (example_platform Map.empty example_versions) GITHUB_ACCESS_TOKEN"
proof -
  let ?p = "example_platform
       [''TYPES_PUBLISHER_CLIENT_ID'' \<mapsto> ''app'', ''TYPES_PUBLISHER_CLIENT_SECRET'' \<mapsto> '''']
       example_versions"
  have "process_env ?p ''TYPES_PUBLISHER_CLIENT_ID'' = Some [] \<or>
        process_env ?p ''TYPES_PUBLISHER_CLIENT_SECRET'' = Some []"
    by (simp add: example_platform_def)
  from getSecret_empty_credentials[OF this, of GITHUB_ACCESS_TOKEN]
  have "getSecret ?p GITHUB_ACCESS_TOKEN = (Inl (Error must_set), [])" .
  moreover have "getSecret (example_platform Map.empty example_versions) GITHUB_ACCESS_TOKEN
        = (Inl (Error must_set), [])"
    by (simp add: getSecret_unset example_platform_def truthy_def)
  ultimately show ?thesis by simp
qed

text \<open>
  C4, as amended. The credentials are read from the environment variables
  \<open>TYPES_PUBLISHER_CLIENT_ID\<close> and \<open>TYPES_PUBLISHER_CLIENT_SECRET\<close>: the absence of
  either is a fatal error of the call, and the values read are the ones the
  credential callback of the vault client works with (a rejection of the listing
  made through that client is the rejection of the call).
\<close>

theorem getSecret_environment_variables:
  "(process_env p ''TYPES_PUBLISHER_CLIENT_ID'' = None \<or>
    process_env p ''TYPES_PUBLISHER_CLIENT_SECRET'' = None \<longrightarrow>
      getSecret p secret = (Inl (Error must_set), [])) \<and>
   (process_env p ''TYPES_PUBLISHER_CLIENT_ID'' = Some clientId \<and> clientId \<noteq> [] \<and>
    process_env p ''TYPES_PUBLISHER_CLIENT_SECRET'' = Some clientSecret \<and> clientSecret \<noteq> [] \<and>
    getSecretVersions (new_KeyVaultClient p (credentials p clientId clientSecret))
      (azureKeyvault p) (azureSecretName secret) = Inl e \<longrightarrow>
      fst (getSecret p secret) = Inl e)"
proof (intro conjI impI)
  assume "process_env p ''TYPES_PUBLISHER_CLIENT_ID'' = None \<or>
          process_env p ''TYPES_PUBLISHER_CLIENT_SECRET'' = None"
  then show "getSecret p secret = (Inl (Error must_set), [])"
    by (auto simp: getSecret_unset truthy_def)
next
  assume "process_env p ''TYPES_PUBLISHER_CLIENT_ID'' = Some clientId \<and> clientId \<noteq> [] \<and>
    process_env p ''TYPES_PUBLISHER_CLIENT_SECRET'' = Some clientSecret \<and> clientSecret \<noteq> [] \<and>
    getSecretVersions (new_KeyVaultClient p (credentials p clientId clientSecret))
      (azureKeyvault p) (azureSecretName secret) = Inl e"
  then show "fst (getSecret p secret) = Inl e"
    using getSecret_listing_rejected by blast
qed

theorem getSecret_environment_variables_witness:
  "getSecret (example_platform [''CLIENT_ID'' \<mapsto> ''app''] example_versions) NPM_TOKEN =
     (Inl (Error must_set), []) \<and>
   fst (getSecret (example_platform
         [''TYPES_PUBLISHER_CLIENT_ID'' \<mapsto> ''app'', ''TYPES_PUBLISHER_CLIENT_SECRET'' \<mapsto> ''stale'']
         example_versions) NPM_TOKEN) = Inl (Raised ''Unauthorized'')"
proof (intro conjI)
  let ?q = "example_platform [''CLIENT_ID'' \<mapsto> ''app''] example_versions"
  have "process_env ?q ''TYPES_PUBLISHER_CLIENT_ID'' = None \<or>
        process_env ?q ''TYPES_PUBLISHER_CLIENT_SECRET'' = None"
    by (simp add: example_platform_def)
  then show "getSecret ?q NPM_TOKEN = (Inl (Error must_set), [])"
    using getSecret_environment_variables[of ?q NPM_TOKEN] by blast
next
  let ?r = "example_platform
         [''TYPES_PUBLISHER_CLIENT_ID'' \<mapsto> ''app'', ''TYPES_PUBLISHER_CLIENT_SECRET'' \<mapsto> ''stale'']
         example_versions"
  have "process_env ?r ''TYPES_PUBLISHER_CLIENT_ID'' = Some ''app'' \<and> ''app'' \<noteq> [] \<and>
    process_env ?r ''TYPES_PUBLISHER_CLIENT_SECRET'' = Some ''stale'' \<and> ''stale'' \<noteq> [] \<and>
    getSecretVersions (new_KeyVaultClient ?r (credentials ?r ''app'' ''stale''))
      (azureKeyvault ?r) (azureSecretName NPM_TOKEN) = Inl (Raised ''Unauthorized'')"
    by (simp add: example_platform_def example_client_def credentials_def)
  then show "fst (getSecret ?r NPM_TOKEN) = Inl (Raised ''Unauthorized'')"
    using getSecret_environment_variables[of ?r NPM_TOKEN "''app''" "''stale''" "Raised ''Unauthorized''"]
    by blast
qed

text \<open>
  C4 as stated fails: an environment that sets \<open>CLIENT_ID\<close> and \<open>CLIENT_SECRET\<close>
  meets the configuration error, and one that sets neither of them resolves the
  secret.
\<close>

theorem getSecret_environment_variables_counterexample:
  "getSecret (example_platform [''CLIENT_ID'' \<mapsto> ''app'', ''CLIENT_SECRET'' \<mapsto> ''pw'']
       example_versions) NPM_TOKEN =
     (Inl (Error ''Must set the TYPES_PUBLISHER_CLIENT_ID and TYPES_PUBLISHER_CLIENT_SECRET environment variables.''), []) \<and>
   example_env ''CLIENT_ID'' = None \<and> example_env ''CLIENT_SECRET'' = None \<and>
   fst (getSecret (example_platform example_env example_versions) NPM_TOKEN) =
     Inr ''value of npm-token/v2''"
  by code_simp

subsection \<open>The credential callback\<close>

text \<open>
  C7. For every challenge, the callback asks the identity provider, at the
  challenge's authority, for a token for the challenge's resource and the client
  credentials; when the provider answers with a token, the callback delivers the
  token type, one space and the access token.
\<close>

theorem credentials_header:
  assumes "acquireTokenWithClientCredentials p (authorization challenge) (resource challenge)
             clientId clientSecret = Inr tokenResponse"
  shows "credentials p clientId clientSecret challenge =
           Inr (tokenType tokenResponse @ CHR '' '' # accessToken tokenResponse)"
  using assms by (simp add: credentials_def)

theorem credentials_header_witness:
  "credentials (example_platform example_env example_versions) ''app'' ''pw'' example_challenge =
     Inr ''Bearer app:pw''"
proof -
  let ?p = "example_platform example_env example_versions"
  have "acquireTokenWithClientCredentials ?p (authorization example_challenge)
          (resource example_challenge) ''app'' ''pw'' =
        Inr \<lparr>tokenType = ''Bearer'', accessToken = ''app:pw''\<rparr>"
    by (simp add: example_platform_def)
  from credentials_header[OF this] show ?thesis by simp
qed

subsection \<open>The derived name\<close>

text \<open>
  C5. The derived name is the member's name in lower case with each underscore
  replaced by a hyphen; it holds no upper-case letter and no underscore, lower-casing
  leaves it unchanged, and the first member derives \<open>azure-storage-access-key\<close>.
\<close>

theorem azureSecretName_lowercase_hyphenated:
  "azureSecretName secret =
     map (\<lambda>c. if c = CHR ''_'' then CHR ''-'' else c) (toLowerCase (Secret_key secret)) \<and>
   list_all (\<lambda>c. \<not> is_upper c \<and> c \<noteq> CHR ''_'') (azureSecretName secret) \<and>
   toLowerCase (azureSecretName secret) = azureSecretName secret \<and>
   azureSecretName AZURE_STORAGE_ACCESS_KEY = ''azure-storage-access-key''"
proof (intro conjI)
  show "azureSecretName secret =
     map (\<lambda>c. if c = CHR ''_'' then CHR ''-'' else c) (toLowerCase (Secret_key secret))"
    using azureSecretName_characters[of secret] by (simp only: Secret_name_key)
  show "list_all (\<lambda>c. \<not> is_upper c \<and> c \<noteq> CHR ''_'') (azureSecretName secret)"
    by (cases secret) (simp_all only: azureSecretName_shape)
  show "toLowerCase (azureSecretName secret) = azureSecretName secret"
    by (cases secret) (simp_all only: azureSecretName_fixed)
  show "azureSecretName AZURE_STORAGE_ACCESS_KEY = ''azure-storage-access-key''"
    by (rule azureSecretName_table(1))
qed

theorem azureSecretName_lowercase_hyphenated_witness:
  "CHR ''_'' \<notin> set (azureSecretName GITHUB_ACCESS_TOKEN) \<and>
   azureSecretName GITHUB_ACCESS_TOKEN = ''github-access-token''"
proof -
  have "list_all (\<lambda>c. \<not> is_upper c \<and> c \<noteq> CHR ''_'') (azureSecretName GITHUB_ACCESS_TOKEN)"
    using azureSecretName_lowercase_hyphenated[of GITHUB_ACCESS_TOKEN] by blast
  then have "CHR ''_'' \<notin> set (azureSecretName GITHUB_ACCESS_TOKEN)"
    by (auto simp: list_all_iff)
  moreover have "azureSecretName GITHUB_ACCESS_TOKEN = ''github-access-token''"
    by (rule azureSecretName_table(2))
  ultimately show ?thesis by blast
qed

text \<open>C9. Distinct members of the enum derive distinct vault names.\<close>

theorem azureSecretName_injective:
  "s \<noteq> t \<Longrightarrow> azureSecretName s \<noteq> azureSecretName t"
  by (cases s; cases t; simp add: azureSecretName_table)

theorem azureSecretName_injective_witness:
  "azureSecretName GITHUB_ACCESS_TOKEN \<noteq> azureSecretName GITHUB_SECRET"
  using azureSecretName_injective[of GITHUB_ACCESS_TOKEN GITHUB_SECRET] by simp

subsection \<open>allSecrets\<close>

text \<open>
  C10. \<open>allSecrets\<close> is the list 0, 1, 2, 3: the numeric values of the members in
  declaration order, each once, and nothing else; the members listed are all the
  members of the enum.
\<close>

theorem allSecrets_values:
  "allSecrets = [0, 1, 2, 3] \<and>
   allSecrets = map Secret_value Secret_members \<and>
   distinct allSecrets \<and>
   distinct Secret_members \<and> set Secret_members = UNIV"
proof (intro conjI)
  show numbers: "allSecrets = [0, 1, 2, 3]" by code_simp
  show "allSecrets = map Secret_value Secret_members" by code_simp
  show "distinct allSecrets" unfolding numbers by simp
  show "distinct Secret_members" by (simp add: Secret_members_def)
  show "set Secret_members = UNIV"
  proof -
    have "secret \<in> set Secret_members" for secret
      by (cases secret) (simp_all add: Secret_members_def)
    then show ?thesis by auto
  qed
qed

end
